theory Spec2Isabelle
  imports Main
begin

section \<open>Backend: the statistics controller (stat.controller.js)\<close>

subsection \<open>The document store\<close>

text \<open>
  A document is a finite list of named fields. The value type of the fields is left
  open: the controller never inspects a value, it only lets the store group by one.
  The three mongoose models \<open>Song\<close>, \<open>Album\<close> and \<open>User\<close> are bound to the collections
  \<open>songs\<close>, \<open>albums\<close> and \<open>users\<close>.
\<close>

type_synonym 'v document = "(string \<times> 'v) list"

record 'v database =
  Song :: "'v document list"
  Album :: "'v document list"
  User :: "'v document list"

text \<open>A collection looked up by name; a name the store does not know is an empty collection.\<close>

definition collection :: "'v database \<Rightarrow> string \<Rightarrow> 'v document list" where
  "collection db name =
     (if name = ''songs'' then Song db
      else if name = ''albums'' then Album db
      else if name = ''users'' then User db
      else [])"

definition countDocuments :: "'a list \<Rightarrow> nat" where
  "countDocuments docs = length docs"

text \<open>
  The three stages of the pipeline of lines 13-28.
  \<open>$unionWith: {coll, pipeline}\<close> appends to the stream the documents of \<open>coll\<close> after
  \<open>pipeline\<close> has run over them.
  \<open>$group: {_id: "$f"}\<close> emits one document \<open>{_id: k}\<close> for each distinct value \<open>k\<close> of the
  field \<open>f\<close>; the documents without the field form one group, whose key is null (\<open>None\<close>).
  \<open>$count: name\<close> emits the single document \<open>{name: n}\<close> for a stream of \<open>n > 0\<close> documents
  and nothing at all for an empty stream.
\<close>

definition unionWith ::
  "'v database \<Rightarrow> string \<Rightarrow> ('v document list \<Rightarrow> 'v document list) \<Rightarrow>
   'v document list \<Rightarrow> 'v document list" where
  "unionWith db coll pipeline docs = docs @ pipeline (collection db coll)"

definition group_by :: "string \<Rightarrow> 'v document list \<Rightarrow> 'v option document list" where
  "group_by fld docs = map (\<lambda>k. [(''_id'', k)]) (remdups (map (\<lambda>d. map_of d fld) docs))"

definition count_stage :: "string \<Rightarrow> 'a list \<Rightarrow> nat document list" where
  "count_stage name docs = (case docs of [] \<Rightarrow> [] | _ # _ \<Rightarrow> [[(name, length docs)]])"

text \<open>\<open>Song.aggregate([{$unionWith: ...}, {$group: ...}, {$count: "count"}])\<close>, lines 13-28.\<close>

definition Song_aggregate :: "'v database \<Rightarrow> nat document list" where
  "Song_aggregate db =
     count_stage ''count''
       (group_by ''artist''
         (unionWith db ''albums'' (\<lambda>docs. docs) (Song db)))"

subsection \<open>Promises\<close>

text \<open>
  A read returns a promise. It stays pending for ever, is fulfilled with a value, or is
  rejected with a reason; the number of a rejection is the moment it happens, which is
  what \<open>Promise.all\<close> goes by when several of its inputs are rejected.
\<close>

datatype ('a, 'e) promise = Pending | Fulfilled 'a | Rejected nat 'e

fun rejection :: "('a, 'e) promise \<Rightarrow> (nat \<times> 'e) list" where
  "rejection (Rejected t e) = [(t, e)]"
| "rejection _ = []"

text \<open>The earliest of a list of rejections; of two at the same moment, the one listed first.\<close>

fun earliest :: "(nat \<times> 'e) list \<Rightarrow> (nat \<times> 'e) option" where
  "earliest [] = None"
| "earliest ((t, e) # rs) =
     (case earliest rs of
        None \<Rightarrow> Some (t, e)
      | Some (t', e') \<Rightarrow> if t \<le> t' then Some (t, e) else Some (t', e'))"

text \<open>
  \<open>Promise.all\<close> over the four promises of line 8: rejected as soon as one input is, with
  that input's reason; fulfilled with all four values once all are fulfilled; pending
  otherwise.
\<close>

definition Promise_all ::
  "('a, 'e) promise \<Rightarrow> ('b, 'e) promise \<Rightarrow> ('c, 'e) promise \<Rightarrow> ('d, 'e) promise \<Rightarrow>
   ('a \<times> 'b \<times> 'c \<times> 'd, 'e) promise" where
  "Promise_all p1 p2 p3 p4 =
     (case earliest (rejection p1 @ rejection p2 @ rejection p3 @ rejection p4) of
        Some (t, e) \<Rightarrow> Rejected t e
      | None \<Rightarrow>
          (case (p1, p2, p3, p4) of
             (Fulfilled a, Fulfilled b, Fulfilled c, Fulfilled d) \<Rightarrow> Fulfilled (a, b, c, d)
           | _ \<Rightarrow> Pending))"

subsection \<open>The handler\<close>

text \<open>What the four reads of one request (lines 9-28) come to.\<close>

record 'e reads =
  Song_countDocuments :: "(nat, 'e) promise"
  Album_countDocuments :: "(nat, 'e) promise"
  User_countDocuments :: "(nat, 'e) promise"
  Song_aggregate_result :: "(nat document list, 'e) promise"

definition rejections :: "'e reads \<Rightarrow> (nat \<times> 'e) list" where
  "rejections r =
     rejection (Song_countDocuments r) @ rejection (Album_countDocuments r) @
     rejection (User_countDocuments r) @ rejection (Song_aggregate_result r)"

text \<open>
  What the handler does to its collaborators, in order: the reads it starts, and the
  calls on \<open>res\<close> and \<open>next\<close>. \<open>getStats\<close> (lines 6-41) starts the four reads, awaits
  \<open>Promise.all\<close> of them, and then either answers (lines 32-37) or, in the \<open>catch\<close> of
  lines 38-40, hands what was thrown to \<open>next\<close>.
\<close>

datatype 'e event =
    Called string
  | Status nat
  | Json "nat document"
  | Next 'e

text \<open>\<open>uniqueArtists[0]?.count || 0\<close>, line 36.\<close>

definition first_count_or_0 :: "nat document list \<Rightarrow> nat" where
  "first_count_or_0 uniqueArtists =
     (case uniqueArtists of
        [] \<Rightarrow> 0
      | d # _ \<Rightarrow>
          (case map_of d ''count'' of
             None \<Rightarrow> 0
           | Some c \<Rightarrow> if c = 0 then 0 else c))"

definition issued :: "'e event list" where
  "issued =
     [Called ''Song.countDocuments'', Called ''Album.countDocuments'',
      Called ''User.countDocuments'', Called ''Song.aggregate'']"

definition getStats :: "'e reads \<Rightarrow> 'e event list" where
  "getStats r =
     issued @
     (case Promise_all (Song_countDocuments r) (Album_countDocuments r)
             (User_countDocuments r) (Song_aggregate_result r) of
        Pending \<Rightarrow> []
      | Fulfilled (totalSongs, totalAlbums, totalUsers, uniqueArtists) \<Rightarrow>
          [Status 200,
           Json [(''totalAlbums'', totalAlbums),
                 (''totalSongs'', totalSongs),
                 (''totalUsers'', totalUsers),
                 (''totalArtists'', first_count_or_0 uniqueArtists)]]
      | Rejected t error \<Rightarrow> [Next error])"

subsection \<open>The reads against one state of the store\<close>

text \<open>
  A read either answers from the state of the store or fails on its way: it hangs, or
  it is rejected at some moment with some reason.
\<close>

datatype read_op = Count_songs | Count_albums | Count_users | Aggregate_artists

datatype 'e fault = Hangs | Fails nat 'e

definition answer :: "'e fault option \<Rightarrow> 'a \<Rightarrow> ('a, 'e) promise" where
  "answer f v = (case f of None \<Rightarrow> Fulfilled v | Some Hangs \<Rightarrow> Pending | Some (Fails t e) \<Rightarrow> Rejected t e)"

definition mongo :: "'v database \<Rightarrow> (read_op \<Rightarrow> 'e fault option) \<Rightarrow> 'e reads" where
  "mongo db faults =
     \<lparr> Song_countDocuments = answer (faults Count_songs) (countDocuments (Song db)),
       Album_countDocuments = answer (faults Count_albums) (countDocuments (Album db)),
       User_countDocuments = answer (faults Count_users) (countDocuments (User db)),
       Song_aggregate_result = answer (faults Aggregate_artists) (Song_aggregate db) \<rparr>"

definition healthy :: "read_op \<Rightarrow> 'e fault option" where
  "healthy op = None"

text \<open>Some read of the request was rejected at moment \<open>t\<close> with reason \<open>e\<close>.\<close>

definition failed :: "'e reads \<Rightarrow> nat \<Rightarrow> 'e \<Rightarrow> bool" where
  "failed r t e \<longleftrightarrow>
     Song_countDocuments r = Rejected t e \<or> Album_countDocuments r = Rejected t e \<or>
     User_countDocuments r = Rejected t e \<or> Song_aggregate_result r = Rejected t e"

section \<open>Frontend: the chat store (useChatStore)\<close>

subsection \<open>The state of the store and of the transport\<close>

text \<open>
  The program creates one transport, the module-level \<open>socket\<close> of line 27. The field
  \<open>socket\<close> of the store holds a reference to it, or nothing. The types \<open>User\<close> and
  \<open>Message\<close> are declared outside this file and stay parameters (\<open>'u\<close>, \<open>'m\<close>). In
  \<open>error\<close>, \<open>None\<close> stands for both \<open>null\<close> and \<open>undefined\<close>.
\<close>

datatype socket_ref = Shared_socket

record ('u, 'm) chat_state =
  users :: "'u list"
  isLoading :: bool
  error :: "string option"
  socket :: "socket_ref option"
  isConnected :: bool
  onlineUsers :: "string set"
  userActivities :: "string \<rightharpoonup> string"
  messages :: "'m list"
  selectedUser :: "'u option"

text \<open>
  The transport belongs to socket.io; the store only calls it. Its state is the list of
  the calls made on it so far, in order.
\<close>

datatype emitted = Text string | Object "(string \<times> string) list"

datatype socket_call =
    Set_auth string
  | Connect
  | Emit string emitted
  | On string
  | Disconnect

record ('u, 'm) world =
  store :: "('u, 'm) chat_state"
  socket_calls :: "socket_call list"

definition initial :: "('u, 'm) world" where
  "initial =
     \<lparr> store =
         \<lparr> users = [], isLoading = False, error = None, socket = Some Shared_socket,
           isConnected = False, onlineUsers = {}, userActivities = Map.empty,
           messages = [], selectedUser = None \<rparr>,
       socket_calls = [] \<rparr>"

definition setSelectedUser :: "'u option \<Rightarrow> ('u, 'm) chat_state \<Rightarrow> ('u, 'm) chat_state" where
  "setSelectedUser user s = s\<lparr>selectedUser := user\<rparr>"

subsection \<open>The seven listeners\<close>

text \<open>An event pushed by the server, with the payload its listener is typed for.\<close>

datatype 'm inbound =
    Users_online "string list"
  | Activities "(string \<times> string) list"
  | User_connected string
  | User_disconnected string
  | Receive_message 'm
  | Message_sent 'm
  | Activity_updated string string

fun event_name :: "'m inbound \<Rightarrow> string" where
  "event_name (Users_online us) = ''users_online''"
| "event_name (Activities acts) = ''activities''"
| "event_name (User_connected userId) = ''user_connected''"
| "event_name (User_disconnected userId) = ''user_disconnected''"
| "event_name (Receive_message m) = ''receive_message''"
| "event_name (Message_sent m) = ''message_sent''"
| "event_name (Activity_updated userId activity) = ''activity_updated''"

text \<open>\<open>new Map(entries)\<close>: the entries are set one after the other, so a later one wins.\<close>

definition new_Map :: "(string \<times> string) list \<Rightarrow> (string \<rightharpoonup> string)" where
  "new_Map entries = foldl (\<lambda>m (k, v). m(k \<mapsto> v)) Map.empty entries"

text \<open>The listener that lines 68-123 attach for each event.\<close>

fun handler :: "'m inbound \<Rightarrow> ('u, 'm) chat_state \<Rightarrow> ('u, 'm) chat_state" where
  "handler (Users_online us) s = s\<lparr>onlineUsers := set us\<rparr>"
| "handler (Activities acts) s = s\<lparr>userActivities := new_Map acts\<rparr>"
| "handler (User_connected userId) s = s\<lparr>onlineUsers := insert userId (onlineUsers s)\<rparr>"
| "handler (User_disconnected userId) s = s\<lparr>onlineUsers := onlineUsers s - {userId}\<rparr>"
| "handler (Receive_message message) s = s\<lparr>messages := messages s @ [message]\<rparr>"
| "handler (Message_sent message) s = s\<lparr>messages := messages s @ [message]\<rparr>"
| "handler (Activity_updated userId activity) s =
     s\<lparr>userActivities := (userActivities s)(userId \<mapsto> activity)\<rparr>"

text \<open>How often \<open>socket.on\<close> attached the listener of an event name.\<close>

definition registered :: "socket_call list \<Rightarrow> string \<Rightarrow> nat" where
  "registered calls name = length (filter (\<lambda>c. c = On name) calls)"

text \<open>How often an event of the given name was emitted on the transport.\<close>

definition emissions :: "socket_call list \<Rightarrow> string \<Rightarrow> nat" where
  "emissions calls name =
     length (filter (\<lambda>c. case c of Emit n payload \<Rightarrow> n = name | _ \<Rightarrow> False) calls)"

text \<open>
  An event that arrives on the transport runs the listener of its name once for each
  \<open>socket.on\<close> that attached it.
\<close>

definition deliver :: "'m inbound \<Rightarrow> ('u, 'm) world \<Rightarrow> ('u, 'm) world" where
  "deliver ev w =
     w\<lparr>store := (handler ev ^^ registered (socket_calls w) (event_name ev)) (store w)\<rparr>"

subsection \<open>Connecting and disconnecting\<close>

text \<open>
  \<open>initSocket\<close> (lines 57-129) works on the module-level transport: under the guard of line
  58 it sets \<open>auth\<close>, connects, emits \<open>user_connected\<close>, attaches the seven listeners and
  then sets \<open>isConnected\<close>. \<open>disconnectSocket\<close> (lines 132-137) removes no listener.
\<close>

definition listeners :: "socket_call list" where
  "listeners =
     [On ''users_online'', On ''activities'', On ''user_connected'', On ''user_disconnected'',
      On ''receive_message'', On ''message_sent'', On ''activity_updated'']"

definition initSocket :: "string \<Rightarrow> ('u, 'm) world \<Rightarrow> ('u, 'm) world" where
  "initSocket userId w =
     (if \<not> isConnected (store w) then
        \<lparr> store = (store w)\<lparr>isConnected := True\<rparr>,
          socket_calls =
            socket_calls w @
            [Set_auth userId, Connect, Emit ''user_connected'' (Text userId)] @ listeners \<rparr>
      else w)"

definition disconnectSocket :: "('u, 'm) world \<Rightarrow> ('u, 'm) world" where
  "disconnectSocket w =
     (if isConnected (store w) then
        \<lparr> store = (store w)\<lparr>isConnected := False\<rparr>,
          socket_calls = socket_calls w @ [Disconnect] \<rparr>
      else w)"

subsection \<open>Sending\<close>

text \<open>
  How a call of an \<open>async\<close> function ends: its promise is fulfilled, or rejected with what
  was thrown. \<open>sendMessage\<close> (lines 141-146) reads the transport from the store.
\<close>

datatype thrown = TypeError

datatype completion = Completed | Threw thrown

definition sendMessage ::
  "string \<Rightarrow> string \<Rightarrow> string \<Rightarrow> ('u, 'm) world \<Rightarrow> ('u, 'm) world \<times> completion" where
  "sendMessage receiverId senderId content w =
     (case socket (store w) of
        None \<Rightarrow> (w, Completed)
      | Some Shared_socket \<Rightarrow>
          (w\<lparr>socket_calls :=
               socket_calls w @
               [Emit ''send_message''
                  (Object [(''receiverId'', receiverId), (''senderId'', senderId),
                           (''content'', content)])]\<rparr>,
           Completed))"

subsection \<open>The two fetches\<close>

text \<open>
  What \<open>axiosInstance.get\<close> comes to: a response with its data; an error that carries the
  server's response, whose body has a \<open>message\<close> or not; or an error with no response at
  all (the network failed, the request timed out) or with a response whose body is null,
  on which \<open>error.response.data.message\<close> throws a TypeError inside the \<open>catch\<close> block.
\<close>

datatype 'a http = Response 'a | Error_response "string option" | No_response

text \<open>
  A fetch (\<open>fetchUsers\<close>, lines 45-55; \<open>fetchMessages\<close>, lines 149-159) runs in two parts.
  The first goes up to the \<open>await\<close>: it changes the store and issues the request. The
  second runs when the request has settled, on the store as it is by then: \<open>try\<close> or
  \<open>catch\<close>, then \<open>finally\<close>.
\<close>

definition fetchUsers_begin :: "('u, 'm) chat_state \<Rightarrow> ('u, 'm) chat_state \<times> string" where
  "fetchUsers_begin s = (s\<lparr>isLoading := True, error := None\<rparr>, ''/users'')"

definition fetchUsers_resume ::
  "'u list http \<Rightarrow> ('u, 'm) chat_state \<Rightarrow> ('u, 'm) chat_state \<times> completion" where
  "fetchUsers_resume r s =
     (let (s1, c) =
            (case r of
               Response data \<Rightarrow> (s\<lparr>users := data\<rparr>, Completed)
             | Error_response message \<Rightarrow> (s\<lparr>error := message\<rparr>, Completed)
             | No_response \<Rightarrow> (s, Threw TypeError))
      in (s1\<lparr>isLoading := False\<rparr>, c))"

definition fetchMessages_begin ::
  "string \<Rightarrow> ('u, 'm) chat_state \<Rightarrow> ('u, 'm) chat_state \<times> string" where
  "fetchMessages_begin userId s =
     (s\<lparr>isLoading := True, error := None\<rparr>, ''/users/messages/'' @ userId)"

definition fetchMessages_resume ::
  "'m list http \<Rightarrow> ('u, 'm) chat_state \<Rightarrow> ('u, 'm) chat_state \<times> completion" where
  "fetchMessages_resume r s =
     (let (s1, c) =
            (case r of
               Response data \<Rightarrow> (s\<lparr>messages := data\<rparr>, Completed)
             | Error_response message \<Rightarrow> (s\<lparr>error := message\<rparr>, Completed)
             | No_response \<Rightarrow> (s, Threw TypeError))
      in (s1\<lparr>isLoading := False\<rparr>, c))"

text \<open>
  The whole call: \<open>meanwhile\<close> is what the other callbacks of the page do to the store
  while the request is in flight, and \<open>r\<close> is what the request comes to.
\<close>

definition fetchUsers ::
  "(('u, 'm) chat_state \<Rightarrow> ('u, 'm) chat_state) \<Rightarrow> 'u list http \<Rightarrow>
   ('u, 'm) chat_state \<Rightarrow> ('u, 'm) chat_state \<times> completion" where
  "fetchUsers meanwhile r s = fetchUsers_resume r (meanwhile (fst (fetchUsers_begin s)))"

definition fetchMessages ::
  "string \<Rightarrow> (('u, 'm) chat_state \<Rightarrow> ('u, 'm) chat_state) \<Rightarrow> 'm list http \<Rightarrow>
   ('u, 'm) chat_state \<Rightarrow> ('u, 'm) chat_state \<times> completion" where
  "fetchMessages userId meanwhile r s =
     fetchMessages_resume r (meanwhile (fst (fetchMessages_begin userId s)))"

section \<open>Properties of the statistics controller\<close>

subsection \<open>Promises and the pipeline\<close>

lemma earliest_None: "earliest rs = None \<longleftrightarrow> rs = []"
  by (induction rs) (auto split: option.splits)

lemma earliest_least:
  "earliest rs = Some (t, e) \<Longrightarrow> (t, e) \<in> set rs \<and> (\<forall>(t', e') \<in> set rs. t \<le> t')"
proof (induction rs arbitrary: t e)
  case Nil
  then show ?case by simp
next
  case (Cons r rs)
  obtain t0 e0 where r: "r = (t0, e0)" by (cases r)
  show ?case
  proof (cases "earliest rs")
    case None
    then have "rs = []" by (simp add: earliest_None)
    with Cons.prems r show ?thesis by simp
  next
    case (Some p)
    obtain t1 e1 where p: "p = (t1, e1)" by (cases p)
    from Cons.IH [of t1 e1] Some p
    have ih: "(t1, e1) \<in> set rs" "\<forall>(t', e') \<in> set rs. t1 \<le> t'" by auto
    show ?thesis
    proof (cases "t0 \<le> t1")
      case True
      with Cons.prems r Some p have "t = t0" "e = e0" by auto
      with True ih r show ?thesis by fastforce
    next
      case False
      with Cons.prems r Some p have "t = t1" "e = e1" by auto
      with False ih r show ?thesis by fastforce
    qed
  qed
qed

lemma length_group_by: "length (group_by fld docs) \<le> length docs"
  unfolding group_by_def
  using length_remdups_leq [of "map (\<lambda>d. map_of d fld) docs"] by simp

lemma length_group_by_card:
  "length (group_by fld docs) = card ((\<lambda>d. map_of d fld) ` set docs)"
  unfolding group_by_def by (simp add: length_remdups_card_conv)

lemma first_count_or_0_count_stage:
  "first_count_or_0 (count_stage ''count'' docs) = length docs"
  by (cases docs) (simp_all add: first_count_or_0_def count_stage_def)

lemma Promise_all_Fulfilled:
  "Promise_all p1 p2 p3 p4 = Fulfilled v \<longleftrightarrow>
   (\<exists>a b c d. p1 = Fulfilled a \<and> p2 = Fulfilled b \<and> p3 = Fulfilled c \<and> p4 = Fulfilled d \<and> v = (a, b, c, d))"
  unfolding Promise_all_def
  by (cases p1; cases p2; cases p3; cases p4) (auto split: option.splits)

lemma rejection_iff: "(t, e) \<in> set (rejection p) \<longleftrightarrow> p = Rejected t e"
  by (cases p) auto

lemma failed_rejections: "failed r t e \<longleftrightarrow> (t, e) \<in> set (rejections r)"
  by (auto simp: failed_def rejections_def rejection_iff)

lemma answer_Fulfilled: "answer f v = Fulfilled x \<Longrightarrow> f = None \<and> x = v"
  by (auto simp: answer_def split: option.splits fault.splits)

lemma Json_notin_issued: "Json body \<notin> set issued"
  by (simp add: issued_def)

lemma getStats_Json:
  assumes "Json body \<in> set (getStats r)"
  shows "\<exists>s a u ua. Song_countDocuments r = Fulfilled s \<and> Album_countDocuments r = Fulfilled a \<and>
           User_countDocuments r = Fulfilled u \<and> Song_aggregate_result r = Fulfilled ua \<and>
           body = [(''totalAlbums'', a), (''totalSongs'', s), (''totalUsers'', u),
                   (''totalArtists'', first_count_or_0 ua)]"
proof (cases "Promise_all (Song_countDocuments r) (Album_countDocuments r)
                (User_countDocuments r) (Song_aggregate_result r)")
  case Pending
  with assms show ?thesis by (simp add: getStats_def Json_notin_issued)
next
  case (Fulfilled v)
  then obtain s a u ua where
    "Song_countDocuments r = Fulfilled s" "Album_countDocuments r = Fulfilled a"
    "User_countDocuments r = Fulfilled u" "Song_aggregate_result r = Fulfilled ua"
    and v: "v = (s, a, u, ua)"
    by (auto simp: Promise_all_Fulfilled)
  moreover from assms Fulfilled v
  have "body = [(''totalAlbums'', a), (''totalSongs'', s), (''totalUsers'', u),
                (''totalArtists'', first_count_or_0 ua)]"
    by (simp add: getStats_def Json_notin_issued)
  ultimately show ?thesis by blast
next
  case (Rejected t e)
  with assms show ?thesis by (simp add: getStats_def Json_notin_issued)
qed

lemma totalArtists_pipeline:
  "first_count_or_0 (Song_aggregate db) =
     length (group_by ''artist'' (unionWith db ''albums'' (\<lambda>docs. docs) (Song db)))"
  by (simp add: Song_aggregate_def first_count_or_0_count_stage)

lemma unionWith_albums: "unionWith db ''albums'' (\<lambda>docs. docs) (Song db) = Song db @ Album db"
  by (simp add: unionWith_def collection_def)

subsection \<open>The response and its figures\<close>

text \<open>
  Claim C1. Whatever the state of the store and whatever becomes of the four reads, a
  body that \<open>getStats\<close> sends holds the number of songs as \<open>totalSongs\<close>, the number of
  albums as \<open>totalAlbums\<close>, and a \<open>totalArtists\<close> that is at most their sum; when there
  are neither songs nor albums, \<open>totalArtists\<close> is 0.
\<close>

theorem getStats_totalArtists_bound:
  assumes "Json body \<in> set (getStats (mongo db faults))"
  shows "\<exists>s a n. map_of body ''totalSongs'' = Some s \<and> map_of body ''totalAlbums'' = Some a \<and>
           map_of body ''totalArtists'' = Some n \<and>
           s = length (Song db) \<and> a = length (Album db) \<and>
           n \<le> s + a \<and> (Song db = [] \<and> Album db = [] \<longrightarrow> n = 0)"
proof -
  from getStats_Json [OF assms] obtain s a u ua where
    s: "Song_countDocuments (mongo db faults) = Fulfilled s" and
    a: "Album_countDocuments (mongo db faults) = Fulfilled a" and
    ua: "Song_aggregate_result (mongo db faults) = Fulfilled ua" and
    body: "body = [(''totalAlbums'', a), (''totalSongs'', s), (''totalUsers'', u),
                   (''totalArtists'', first_count_or_0 ua)]"
    by blast
  from s have s': "s = length (Song db)"
    by (auto simp: mongo_def countDocuments_def dest: answer_Fulfilled)
  from a have a': "a = length (Album db)"
    by (auto simp: mongo_def countDocuments_def dest: answer_Fulfilled)
  from ua have "ua = Song_aggregate db"
    by (auto simp: mongo_def dest: answer_Fulfilled)
  then have n: "first_count_or_0 ua = length (group_by ''artist'' (Song db @ Album db))"
    by (simp add: totalArtists_pipeline unionWith_albums)
  have le: "first_count_or_0 ua \<le> s + a"
    using length_group_by [of "''artist''" "Song db @ Album db"] by (simp add: n s' a')
  have zero: "Song db = [] \<and> Album db = [] \<longrightarrow> first_count_or_0 ua = 0"
    by (simp add: n group_by_def)
  have "map_of body ''totalSongs'' = Some s" by (simp add: body)
  moreover have "map_of body ''totalAlbums'' = Some a" by (simp add: body)
  moreover have "map_of body ''totalArtists'' = Some (first_count_or_0 ua)" by (simp add: body)
  ultimately show ?thesis using s' a' le zero by blast
qed

theorem getStats_totalArtists_bound_witness:
  "Json [(''totalAlbums'', 1), (''totalSongs'', 2), (''totalUsers'', 0), (''totalArtists'', 2)]
     \<in> set (getStats
               (mongo \<lparr>Song = [[(''artist'', ''A'')], [(''artist'', ''A'')]],
                       Album = [[(''artist'', ''B'')]], User = []\<rparr>
                  (healthy :: read_op \<Rightarrow> string fault option))) \<and>
   (\<exists>n::nat. map_of [(''totalAlbums'', 1), (''totalSongs'', 2), (''totalUsers'', 0),
                 (''totalArtists'', 2)] ''totalArtists'' = Some n \<and> n \<le> 2 + 1) \<and>
   Json [(''totalAlbums'', 0), (''totalSongs'', 0), (''totalUsers'', 1), (''totalArtists'', 0)]
     \<in> set (getStats
               (mongo \<lparr>Song = [], Album = [], User = [[(''name'', ''u'')]]\<rparr>
                  (healthy :: read_op \<Rightarrow> string fault option))) \<and>
   map_of [(''totalAlbums'', 0), (''totalSongs'', 0), (''totalUsers'', 1),
           (''totalArtists'', 0)] ''totalArtists'' = Some (0::nat)"
proof -
  let ?db1 = "\<lparr>Song = [[(''artist'', ''A'')], [(''artist'', ''A'')]],
               Album = [[(''artist'', ''B'')]], User = []\<rparr>"
  let ?db0 = "\<lparr>Song = [], Album = [], User = [[(''name'', ''u'')]]\<rparr>"
  let ?f = "healthy :: read_op \<Rightarrow> string fault option"
  have h1: "Json [(''totalAlbums'', 1), (''totalSongs'', 2), (''totalUsers'', 0),
                  (''totalArtists'', 2)] \<in> set (getStats (mongo ?db1 ?f))"
    by (simp add: getStats_def mongo_def answer_def healthy_def Promise_all_def
        countDocuments_def Song_aggregate_def count_stage_def group_by_def unionWith_def
        collection_def first_count_or_0_def)
  have h0: "Json [(''totalAlbums'', 0), (''totalSongs'', 0), (''totalUsers'', 1),
                  (''totalArtists'', 0)] \<in> set (getStats (mongo ?db0 ?f))"
    by (simp add: getStats_def mongo_def answer_def healthy_def Promise_all_def
        countDocuments_def Song_aggregate_def count_stage_def group_by_def unionWith_def
        collection_def first_count_or_0_def)
  from getStats_totalArtists_bound [OF h1]
  have c1: "\<exists>n::nat. map_of [(''totalAlbums'', 1), (''totalSongs'', 2), (''totalUsers'', 0),
                 (''totalArtists'', 2)] ''totalArtists'' = Some n \<and> n \<le> 2 + 1"
    by auto
  from getStats_totalArtists_bound [OF h0]
  have c0: "map_of [(''totalAlbums'', 0), (''totalSongs'', 0), (''totalUsers'', 1),
                (''totalArtists'', 0)] ''totalArtists'' = Some (0::nat)"
    by auto
  from h1 c1 h0 c0 show ?thesis by blast
qed

text \<open>
  Claim C6. When all four reads are fulfilled, \<open>getStats\<close> calls \<open>res.status(200)\<close> and
  then \<open>res.json\<close> with a body of exactly the four fields \<open>totalAlbums\<close>, \<open>totalSongs\<close>,
  \<open>totalUsers\<close> and \<open>totalArtists\<close>, in that order, and does nothing else. The first
  three are the values the counts were fulfilled with. \<open>totalArtists\<close> is 0 when the
  aggregation returned no document, and when the aggregation is the pipeline run on a
  store \<open>db\<close> it is the number of groups the \<open>$group\<close> stage forms over the songs and
  albums of \<open>db\<close>.
\<close>

theorem getStats_success_response:
  assumes "Song_countDocuments r = Fulfilled s" and "Album_countDocuments r = Fulfilled a"
    and "User_countDocuments r = Fulfilled u" and "Song_aggregate_result r = Fulfilled ua"
  shows "\<exists>n. getStats r =
           issued @
           [Status 200,
            Json [(''totalAlbums'', a), (''totalSongs'', s), (''totalUsers'', u),
                  (''totalArtists'', n)]] \<and>
         (ua = [] \<longrightarrow> n = 0) \<and>
         (ua = Song_aggregate db \<longrightarrow>
            n = length (group_by ''artist''
                         (unionWith db ''albums'' (\<lambda>docs. docs) (Song db))))"
proof -
  have "Promise_all (Song_countDocuments r) (Album_countDocuments r)
          (User_countDocuments r) (Song_aggregate_result r) = Fulfilled (s, a, u, ua)"
    using assms by (simp add: Promise_all_Fulfilled)
  then have "getStats r =
           issued @
           [Status 200,
            Json [(''totalAlbums'', a), (''totalSongs'', s), (''totalUsers'', u),
                  (''totalArtists'', first_count_or_0 ua)]]"
    by (simp add: getStats_def)
  moreover have "ua = [] \<longrightarrow> first_count_or_0 ua = 0"
    by (simp add: first_count_or_0_def)
  moreover have "ua = Song_aggregate db \<longrightarrow>
            first_count_or_0 ua =
              length (group_by ''artist'' (unionWith db ''albums'' (\<lambda>docs. docs) (Song db)))"
    by (simp add: totalArtists_pipeline)
  ultimately show ?thesis by blast
qed

theorem getStats_success_response_witness:
  "getStats (mongo \<lparr>Song = [[(''artist'', ''A'')], [(''artist'', ''A'')]],
                    Album = [[(''artist'', ''B'')]], User = []\<rparr>
               (healthy :: read_op \<Rightarrow> string fault option)) =
     issued @
     [Status 200,
      Json [(''totalAlbums'', 1), (''totalSongs'', 2), (''totalUsers'', 0),
            (''totalArtists'', 2)]] \<and>
   getStats (mongo \<lparr>Song = [], Album = [], User = [[(''name'', ''u'')]]\<rparr>
               (healthy :: read_op \<Rightarrow> string fault option)) =
     issued @
     [Status 200,
      Json [(''totalAlbums'', 0), (''totalSongs'', 0), (''totalUsers'', 1),
            (''totalArtists'', 0)]]"
proof -
  let ?db1 = "\<lparr>Song = [[(''artist'', ''A'')], [(''artist'', ''A'')]],
               Album = [[(''artist'', ''B'')]], User = []\<rparr>"
  let ?db0 = "\<lparr>Song = [], Album = [], User = [[(''name'', ''u'')]]\<rparr>"
  let ?f = "healthy :: read_op \<Rightarrow> string fault option"
  have agg1: "Song_aggregate ?db1 = [[(''count'', 2)]]"
    by (simp add: Song_aggregate_def count_stage_def group_by_def unionWith_def collection_def)
  have agg0: "Song_aggregate ?db0 = []"
    by (simp add: Song_aggregate_def count_stage_def group_by_def unionWith_def collection_def)
  have groups1: "length (group_by ''artist''
                   (unionWith ?db1 ''albums'' (\<lambda>docs. docs) (Song ?db1))) = 2"
    by (simp add: group_by_def unionWith_def collection_def)
  have r1: "Song_countDocuments (mongo ?db1 ?f) = Fulfilled 2"
    "Album_countDocuments (mongo ?db1 ?f) = Fulfilled 1"
    "User_countDocuments (mongo ?db1 ?f) = Fulfilled 0"
    "Song_aggregate_result (mongo ?db1 ?f) = Fulfilled [[(''count'', 2)]]"
    by (simp_all add: mongo_def answer_def healthy_def countDocuments_def agg1)
  have r0: "Song_countDocuments (mongo ?db0 ?f) = Fulfilled 0"
    "Album_countDocuments (mongo ?db0 ?f) = Fulfilled 0"
    "User_countDocuments (mongo ?db0 ?f) = Fulfilled 1"
    "Song_aggregate_result (mongo ?db0 ?f) = Fulfilled []"
    by (simp_all add: mongo_def answer_def healthy_def countDocuments_def agg0)
  from getStats_success_response [OF r1, of ?db1] agg1 groups1
  have "getStats (mongo ?db1 ?f) =
     issued @
     [Status 200,
      Json [(''totalAlbums'', 1), (''totalSongs'', 2), (''totalUsers'', 0),
            (''totalArtists'', 2)]]"
    by auto
  moreover from getStats_success_response [OF r0, of ?db0]
  have "getStats (mongo ?db0 ?f) =
     issued @
     [Status 200,
      Json [(''totalAlbums'', 0), (''totalSongs'', 0), (''totalUsers'', 1),
            (''totalArtists'', 0)]]"
    by auto
  ultimately show ?thesis by blast
qed

text \<open>
  Claim C7. When one of the four reads is rejected, \<open>getStats\<close> starts each read once,
  calls \<open>next\<close> once and does nothing else: no \<open>res.status\<close>, no \<open>res.json\<close>, no second
  start of a read. What it hands to \<open>next\<close> is the reason of a rejected read as it is,
  and of several rejections it is the reason of one that no other precedes.
\<close>

theorem getStats_failure_forwarded:
  assumes "failed r t0 e0"
  shows "\<exists>t e. failed r t e \<and> (\<forall>t' e'. failed r t' e' \<longrightarrow> t \<le> t') \<and>
           getStats r = issued @ [Next e]"
proof -
  from assms have "rejections r \<noteq> []"
    by (auto simp: failed_rejections)
  then obtain t e where te: "earliest (rejections r) = Some (t, e)"
    by (cases "earliest (rejections r)") (auto simp: earliest_None)
  from earliest_least [OF te]
  have "failed r t e" and "\<forall>t' e'. failed r t' e' \<longrightarrow> t \<le> t'"
    by (auto simp: failed_rejections)
  moreover from te have "getStats r = issued @ [Next e]"
    by (simp add: getStats_def Promise_all_def rejections_def)
  ultimately show ?thesis by blast
qed

theorem getStats_failure_forwarded_witness:
  "failed \<lparr>Song_countDocuments = Rejected 5 ''late'', Album_countDocuments = Pending,
           User_countDocuments = Rejected 3 ''early'',
           Song_aggregate_result = Fulfilled [[(''count'', 1)]]\<rparr> 5 ''late'' \<and>
   getStats \<lparr>Song_countDocuments = Rejected 5 ''late'', Album_countDocuments = Pending,
             User_countDocuments = Rejected 3 ''early'',
             Song_aggregate_result = Fulfilled [[(''count'', 1)]]\<rparr> =
     issued @ [Next ''early'']"
proof -
  let ?r = "\<lparr>Song_countDocuments = Rejected 5 ''late'', Album_countDocuments = Pending,
             User_countDocuments = Rejected 3 ''early'',
             Song_aggregate_result = Fulfilled [[(''count'', 1)]]\<rparr>"
  have h: "failed ?r 5 ''late''"
    by (simp add: failed_def)
  from getStats_failure_forwarded [OF h] obtain t e where
    f: "failed ?r t e" and least: "\<forall>t' e'. failed ?r t' e' \<longrightarrow> t \<le> t'"
    and g: "getStats ?r = issued @ [Next e]"
    by blast
  have "failed ?r 3 ''early''"
    by (simp add: failed_def)
  with least have "t \<le> 3" by blast
  with f have "e = ''early''"
    by (auto simp: failed_def)
  with g h show ?thesis by simp
qed

subsection \<open>Starting the reads and waiting for them\<close>

lemma getStats_trace:
  "getStats r = issued \<or>
   (\<exists>e. getStats r = issued @ [Next e]) \<or>
   (\<exists>s a u ua. Song_countDocuments r = Fulfilled s \<and> Album_countDocuments r = Fulfilled a \<and>
      User_countDocuments r = Fulfilled u \<and> Song_aggregate_result r = Fulfilled ua \<and>
      getStats r =
        issued @
        [Status 200,
         Json [(''totalAlbums'', a), (''totalSongs'', s), (''totalUsers'', u),
               (''totalArtists'', first_count_or_0 ua)]])"
proof (cases "Promise_all (Song_countDocuments r) (Album_countDocuments r)
                (User_countDocuments r) (Song_aggregate_result r)")
  case Pending
  then show ?thesis by (simp add: getStats_def)
next
  case (Fulfilled v)
  then obtain s a u ua where
    "Song_countDocuments r = Fulfilled s" "Album_countDocuments r = Fulfilled a"
    "User_countDocuments r = Fulfilled u" "Song_aggregate_result r = Fulfilled ua"
    and v: "v = (s, a, u, ua)"
    by (auto simp: Promise_all_Fulfilled)
  moreover from Fulfilled v
  have "getStats r =
        issued @
        [Status 200,
         Json [(''totalAlbums'', a), (''totalSongs'', s), (''totalUsers'', u),
               (''totalArtists'', first_count_or_0 ua)]]"
    by (simp add: getStats_def)
  ultimately show ?thesis by blast
next
  case (Rejected t e)
  then show ?thesis by (simp add: getStats_def)
qed

lemma Status_notin_issued: "Status c \<notin> set issued"
  by (simp add: issued_def)

lemma getStats_Status:
  assumes "Status c \<in> set (getStats r)"
  shows "\<exists>s a u ua. Song_countDocuments r = Fulfilled s \<and> Album_countDocuments r = Fulfilled a \<and>
           User_countDocuments r = Fulfilled u \<and> Song_aggregate_result r = Fulfilled ua"
  using getStats_trace [of r] assms by (auto simp: Status_notin_issued)

lemma getStats_issued_first:
  "\<exists>rest. getStats r = issued @ rest \<and> (\<forall>ev \<in> set rest. \<forall>name. ev \<noteq> Called name)"
  using getStats_trace [of r] by auto

text \<open>
  Claim C9. \<open>getStats\<close> starts all four reads, in the order of the source, before it
  does anything else, whatever becomes of any of them: a read that never settles keeps
  none of the other three from being started, and no read is started a second time. It
  answers only when all four reads are fulfilled: while one of them is still pending it
  calls neither \<open>res.status\<close> nor \<open>res.json\<close>, and a \<open>res.status\<close> or \<open>res.json\<close> call
  in the trace means that each of the four reads was fulfilled.
\<close>

theorem getStats_reads_concurrent:
  "(\<exists>rest. getStats r =
       [Called ''Song.countDocuments'', Called ''Album.countDocuments'',
        Called ''User.countDocuments'', Called ''Song.aggregate''] @ rest \<and>
       (\<forall>ev \<in> set rest. \<forall>name. ev \<noteq> Called name)) \<and>
   (Song_countDocuments r = Pending \<or> Album_countDocuments r = Pending \<or>
    User_countDocuments r = Pending \<or> Song_aggregate_result r = Pending \<longrightarrow>
      (\<forall>c. Status c \<notin> set (getStats r)) \<and> (\<forall>body. Json body \<notin> set (getStats r))) \<and>
   (\<forall>c. Status c \<in> set (getStats r) \<longrightarrow>
      (\<exists>s a u ua. Song_countDocuments r = Fulfilled s \<and> Album_countDocuments r = Fulfilled a \<and>
         User_countDocuments r = Fulfilled u \<and> Song_aggregate_result r = Fulfilled ua)) \<and>
   (\<forall>body. Json body \<in> set (getStats r) \<longrightarrow>
      (\<exists>s a u ua. Song_countDocuments r = Fulfilled s \<and> Album_countDocuments r = Fulfilled a \<and>
         User_countDocuments r = Fulfilled u \<and> Song_aggregate_result r = Fulfilled ua))"
proof -
  have first: "\<exists>rest. getStats r =
       [Called ''Song.countDocuments'', Called ''Album.countDocuments'',
        Called ''User.countDocuments'', Called ''Song.aggregate''] @ rest \<and>
       (\<forall>ev \<in> set rest. \<forall>name. ev \<noteq> Called name)"
    using getStats_issued_first [of r] by (simp only: issued_def)
  have status: "\<exists>s a u ua. Song_countDocuments r = Fulfilled s \<and>
         Album_countDocuments r = Fulfilled a \<and>
         User_countDocuments r = Fulfilled u \<and> Song_aggregate_result r = Fulfilled ua"
    if "Status c \<in> set (getStats r)" for c
    using that by (rule getStats_Status)
  have json: "\<exists>s a u ua. Song_countDocuments r = Fulfilled s \<and>
         Album_countDocuments r = Fulfilled a \<and>
         User_countDocuments r = Fulfilled u \<and> Song_aggregate_result r = Fulfilled ua"
    if "Json body \<in> set (getStats r)" for body
    using getStats_Json [OF that] by blast
  have blocked: "(\<forall>c. Status c \<notin> set (getStats r)) \<and> (\<forall>body. Json body \<notin> set (getStats r))"
    if "Song_countDocuments r = Pending \<or> Album_countDocuments r = Pending \<or>
        User_countDocuments r = Pending \<or> Song_aggregate_result r = Pending"
    using that status json by fastforce
  from first blocked status json show ?thesis by blast
qed

theorem getStats_reads_concurrent_witness:
  "Song_countDocuments
     \<lparr>Song_countDocuments = Pending, Album_countDocuments = Fulfilled 1,
      User_countDocuments = Fulfilled 4,
      Song_aggregate_result = (Fulfilled [[(''count'', 2)]] :: (nat document list, string) promise)\<rparr>
     = Pending \<and>
   getStats
     \<lparr>Song_countDocuments = Pending, Album_countDocuments = Fulfilled 1,
      User_countDocuments = Fulfilled 4,
      Song_aggregate_result = (Fulfilled [[(''count'', 2)]] :: (nat document list, string) promise)\<rparr>
     = [Called ''Song.countDocuments'', Called ''Album.countDocuments'',
        Called ''User.countDocuments'', Called ''Song.aggregate''] \<and>
   Status 200 \<notin> set (getStats
     \<lparr>Song_countDocuments = Pending, Album_countDocuments = Fulfilled 1,
      User_countDocuments = Fulfilled 4,
      Song_aggregate_result = (Fulfilled [[(''count'', 2)]] :: (nat document list, string) promise)\<rparr>) \<and>
   Status 200 \<in> set (getStats
     \<lparr>Song_countDocuments = Fulfilled 3, Album_countDocuments = Fulfilled 1,
      User_countDocuments = Fulfilled 4,
      Song_aggregate_result = (Fulfilled [[(''count'', 2)]] :: (nat document list, string) promise)\<rparr>) \<and>
   (\<exists>s. Song_countDocuments
     \<lparr>Song_countDocuments = Fulfilled 3, Album_countDocuments = Fulfilled 1,
      User_countDocuments = Fulfilled 4,
      Song_aggregate_result = (Fulfilled [[(''count'', 2)]] :: (nat document list, string) promise)\<rparr>
     = Fulfilled s)"
proof -
  let ?blocked = "\<lparr>Song_countDocuments = Pending, Album_countDocuments = Fulfilled 1,
      User_countDocuments = Fulfilled 4,
      Song_aggregate_result = (Fulfilled [[(''count'', 2)]] :: (nat document list, string) promise)\<rparr>"
  let ?ok = "\<lparr>Song_countDocuments = Fulfilled 3, Album_countDocuments = Fulfilled 1,
      User_countDocuments = Fulfilled 4,
      Song_aggregate_result = (Fulfilled [[(''count'', 2)]] :: (nat document list, string) promise)\<rparr>"
  have p: "Song_countDocuments ?blocked = Pending"
    by simp
  have tr: "getStats ?blocked =
      [Called ''Song.countDocuments'', Called ''Album.countDocuments'',
       Called ''User.countDocuments'', Called ''Song.aggregate'']"
    by (simp add: getStats_def Promise_all_def issued_def)
  have st: "Status 200 \<in> set (getStats ?ok)"
    by (simp add: getStats_def Promise_all_def issued_def)
  note b = getStats_reads_concurrent [of ?blocked, THEN conjunct2, THEN conjunct1, THEN mp,
      OF disjI1, OF p, THEN conjunct1, THEN spec, of 200]
  note f = getStats_reads_concurrent [of ?ok, THEN conjunct2, THEN conjunct2, THEN conjunct1,
      THEN spec, of 200, THEN mp, OF st]
  from f have ex: "\<exists>s. Song_countDocuments ?ok = Fulfilled s"
    by blast
  show ?thesis
    by (rule conjI [OF p conjI [OF tr conjI [OF b conjI [OF st ex]]]])
qed

section \<open>Properties of the chat store\<close>

subsection \<open>Listeners\<close>

lemma foldl_update_map_of:
  "foldl (\<lambda>m (k, v). m(k \<mapsto> v)) m0 es = m0 ++ map_of (rev es)"
proof (induction es arbitrary: m0)
  case Nil
  show ?case by simp
next
  case (Cons e es)
  obtain k v where e: "e = (k, v)" by (cases e)
  have "foldl (\<lambda>m (k, v). m(k \<mapsto> v)) m0 (e # es) =
          foldl (\<lambda>m (k, v). m(k \<mapsto> v)) (m0(k \<mapsto> v)) es"
    by (simp add: e del: fun_upd_apply)
  also have "\<dots> = m0(k \<mapsto> v) ++ map_of (rev es)"
    by (rule Cons.IH)
  also have "\<dots> = m0 ++ map_of (rev (e # es))"
    by (simp add: e map_of_append del: fun_upd_apply)
  finally show ?case .
qed

lemma new_Map_map_of: "new_Map entries = map_of (rev entries)"
  by (simp add: new_Map_def foldl_update_map_of)

lemma funpow_idem:
  assumes "\<And>x. f (f x) = f x" and "0 < n"
  shows "(f ^^ n) x = f x"
  using assms(2)
proof (induction n)
  case 0
  then show ?case by simp
next
  case (Suc n)
  show ?case
  proof (cases "n = 0")
    case True
    then show ?thesis by simp
  next
    case False
    with Suc.IH have "(f ^^ n) x = f x" by simp
    then show ?thesis by (simp add: assms(1))
  qed
qed

lemma deliver_idem:
  fixes w :: "('u, 'm) world"
  assumes "\<And>s :: ('u, 'm) chat_state. handler ev (handler ev s) = handler ev s"
    and "0 < registered (socket_calls w) (event_name ev)"
  shows "deliver ev w = w\<lparr>store := handler ev (store w)\<rparr>"
  unfolding deliver_def using funpow_idem [OF assms] by simp

lemma deliver_Users_online:
  "0 < registered (socket_calls w) ''users_online'' \<Longrightarrow>
   deliver (Users_online us) w = w\<lparr>store := handler (Users_online us) (store w)\<rparr>"
  by (rule deliver_idem) simp_all

lemma deliver_User_disconnected:
  "0 < registered (socket_calls w) ''user_disconnected'' \<Longrightarrow>
   deliver (User_disconnected u) w = w\<lparr>store := handler (User_disconnected u) (store w)\<rparr>"
  by (rule deliver_idem) simp_all

lemma deliver_Activities:
  "0 < registered (socket_calls w) ''activities'' \<Longrightarrow>
   deliver (Activities acts) w = w\<lparr>store := handler (Activities acts) (store w)\<rparr>"
  by (rule deliver_idem) simp_all

lemma deliver_Activity_updated:
  "0 < registered (socket_calls w) ''activity_updated'' \<Longrightarrow>
   deliver (Activity_updated u a) w = w\<lparr>store := handler (Activity_updated u a) (store w)\<rparr>"
  by (rule deliver_idem) simp_all

lemma ab_minus_a: "{''a'', ''b''} - {''a''} = {''b''}"
  by auto

text \<open>
  Claim C4. On any state of the store, the listener of \<open>users_online\<close> makes \<open>onlineUsers\<close>
  the set of the received identifiers, that of \<open>user_connected\<close> adds the received
  identifier and that of \<open>user_disconnected\<close> removes it. So \<open>users_online(["a","b"])\<close>
  followed by \<open>user_disconnected("a")\<close> leaves \<open>onlineUsers = {"b"}\<close>, run as listeners on
  any store and delivered through a transport on which both listeners are attached.
\<close>

theorem presence_handlers:
  fixes s :: "('u, 'm) chat_state" and w :: "('u, 'm) world"
  shows "onlineUsers (handler (Users_online us) s) = set us \<and>
     onlineUsers (handler (User_connected userId) s) = insert userId (onlineUsers s) \<and>
     onlineUsers (handler (User_disconnected userId) s) = onlineUsers s - {userId} \<and>
     onlineUsers (handler (User_disconnected ''a'') (handler (Users_online [''a'', ''b'']) s))
       = {''b''} \<and>
     (0 < registered (socket_calls w) ''users_online'' \<and>
      0 < registered (socket_calls w) ''user_disconnected'' \<longrightarrow>
      onlineUsers (store (deliver (User_disconnected ''a'')
                           (deliver (Users_online [''a'', ''b'']) w))) = {''b''})"
proof -
  have scenario: "onlineUsers (handler (User_disconnected ''a'')
                     (handler (Users_online [''a'', ''b'']) s')) = {''b''}"
    for s' :: "('u, 'm) chat_state"
    using ab_minus_a by simp
  have "onlineUsers (store (deliver (User_disconnected ''a'')
                           (deliver (Users_online [''a'', ''b'']) w))) = {''b''}"
    if "0 < registered (socket_calls w) ''users_online''"
      and "0 < registered (socket_calls w) ''user_disconnected''"
  proof -
    let ?w1 = "deliver (Users_online [''a'', ''b'']) w"
    have w1: "?w1 = w\<lparr>store := handler (Users_online [''a'', ''b'']) (store w)\<rparr>"
      using that(1) by (rule deliver_Users_online)
    then have "0 < registered (socket_calls ?w1) ''user_disconnected''"
      using that(2) by simp
    then have "deliver (User_disconnected ''a'') ?w1 =
                 ?w1\<lparr>store := handler (User_disconnected ''a'') (store ?w1)\<rparr>"
      by (rule deliver_User_disconnected)
    with w1 show ?thesis using scenario [of "store w"] by simp
  qed
  with scenario [of s] show ?thesis by simp
qed

theorem presence_handlers_witness:
  "0 < registered (socket_calls (initSocket ''u'' (initial :: (nat, nat) world))) ''users_online'' \<and>
   0 < registered (socket_calls (initSocket ''u'' (initial :: (nat, nat) world)))
         ''user_disconnected'' \<and>
   onlineUsers (store (deliver (User_disconnected ''a'')
                        (deliver (Users_online [''a'', ''b''])
                          (initSocket ''u'' (initial :: (nat, nat) world))))) = {''b''}"
proof -
  let ?w = "initSocket ''u'' (initial :: (nat, nat) world)"
  have calls: "socket_calls ?w =
      [Set_auth ''u'', Connect, Emit ''user_connected'' (Text ''u'')] @ listeners"
    by (simp add: initSocket_def initial_def)
  have h1: "0 < registered (socket_calls ?w) ''users_online''"
    unfolding calls by (simp add: registered_def listeners_def)
  have h2: "0 < registered (socket_calls ?w) ''user_disconnected''"
    unfolding calls by (simp add: registered_def listeners_def)
  from h1 h2 presence_handlers [of "[]" "store ?w" "''u''" ?w] show ?thesis
    by blast
qed

text \<open>
  Claim C5. On any state of the store, the listener of \<open>activities\<close> makes \<open>userActivities\<close>
  the map of the received pairs (of two pairs with one key the later one counts), whatever
  the map was before, and the listener of \<open>activity_updated\<close> sets the entry of the given
  user and leaves every other entry as it was. So \<open>activities([["x","Idle"],["y","Idle"]])\<close>
  followed by \<open>activity_updated({userId: "x", activity: "Playing"})\<close> leaves the map
  \<open>{x: "Playing", y: "Idle"}\<close>, run as listeners on any store and delivered through a
  transport on which both listeners are attached.
\<close>

theorem activity_handlers:
  fixes s :: "('u, 'm) chat_state" and w :: "('u, 'm) world"
  shows "userActivities (handler (Activities acts) s) = map_of (rev acts) \<and>
     userActivities (handler (Activity_updated userId activity) s) userId = Some activity \<and>
     (\<forall>k. k \<noteq> userId \<longrightarrow>
        userActivities (handler (Activity_updated userId activity) s) k = userActivities s k) \<and>
     userActivities (handler (Activity_updated ''x'' ''Playing'')
                      (handler (Activities [(''x'', ''Idle''), (''y'', ''Idle'')]) s))
       = [''x'' \<mapsto> ''Playing'', ''y'' \<mapsto> ''Idle''] \<and>
     (0 < registered (socket_calls w) ''activities'' \<and>
      0 < registered (socket_calls w) ''activity_updated'' \<longrightarrow>
      userActivities (store (deliver (Activity_updated ''x'' ''Playing'')
                              (deliver (Activities [(''x'', ''Idle''), (''y'', ''Idle'')]) w)))
        = [''x'' \<mapsto> ''Playing'', ''y'' \<mapsto> ''Idle''])"
proof -
  have scenario: "userActivities (handler (Activity_updated ''x'' ''Playing'')
                      (handler (Activities [(''x'', ''Idle''), (''y'', ''Idle'')]) s'))
       = [''x'' \<mapsto> ''Playing'', ''y'' \<mapsto> ''Idle'']"
    for s' :: "('u, 'm) chat_state"
    by (rule ext) (simp add: new_Map_map_of)
  have "userActivities (store (deliver (Activity_updated ''x'' ''Playing'')
                              (deliver (Activities [(''x'', ''Idle''), (''y'', ''Idle'')]) w)))
        = [''x'' \<mapsto> ''Playing'', ''y'' \<mapsto> ''Idle'']"
    if "0 < registered (socket_calls w) ''activities''"
      and "0 < registered (socket_calls w) ''activity_updated''"
  proof -
    let ?w1 = "deliver (Activities [(''x'', ''Idle''), (''y'', ''Idle'')]) w"
    have w1: "?w1 = w\<lparr>store := handler (Activities [(''x'', ''Idle''), (''y'', ''Idle'')]) (store w)\<rparr>"
      using that(1) by (rule deliver_Activities)
    then have "0 < registered (socket_calls ?w1) ''activity_updated''"
      using that(2) by simp
    then have "deliver (Activity_updated ''x'' ''Playing'') ?w1 =
                 ?w1\<lparr>store := handler (Activity_updated ''x'' ''Playing'') (store ?w1)\<rparr>"
      by (rule deliver_Activity_updated)
    with w1 show ?thesis using scenario [of "store w"] by simp
  qed
  moreover have "userActivities (handler (Activities acts) s) = map_of (rev acts)"
    by (simp add: new_Map_map_of)
  moreover have "userActivities (handler (Activity_updated userId activity) s) userId = Some activity"
    by simp
  moreover have "\<forall>k. k \<noteq> userId \<longrightarrow>
        userActivities (handler (Activity_updated userId activity) s) k = userActivities s k"
    by simp
  ultimately show ?thesis using scenario [of s] by blast
qed

theorem activity_handlers_witness:
  "0 < registered (socket_calls (initSocket ''u'' (initial :: (nat, nat) world))) ''activities'' \<and>
   0 < registered (socket_calls (initSocket ''u'' (initial :: (nat, nat) world)))
         ''activity_updated'' \<and>
   userActivities (store (deliver (Activity_updated ''x'' ''Playing'')
                           (deliver (Activities [(''x'', ''Idle''), (''y'', ''Idle'')])
                             (initSocket ''u'' (initial :: (nat, nat) world)))))
     = [''x'' \<mapsto> ''Playing'', ''y'' \<mapsto> ''Idle''] \<and>
   ''y'' \<noteq> ''x'' \<and>
   userActivities (handler (Activity_updated ''x'' ''Playing'')
                     (store (initSocket ''u'' (initial :: (nat, nat) world)))) ''y'' = None"
proof -
  let ?w = "initSocket ''u'' (initial :: (nat, nat) world)"
  have calls: "socket_calls ?w =
      [Set_auth ''u'', Connect, Emit ''user_connected'' (Text ''u'')] @ listeners"
    by (simp add: initSocket_def initial_def)
  have h1: "0 < registered (socket_calls ?w) ''activities''"
    unfolding calls by (simp add: registered_def listeners_def)
  have h2: "0 < registered (socket_calls ?w) ''activity_updated''"
    unfolding calls by (simp add: registered_def listeners_def)
  have h3: "''y'' \<noteq> ''x''"
    by simp
  have before: "userActivities (store ?w) ''y'' = None"
    by (simp add: initSocket_def initial_def)
  note t = activity_handlers [of "[]" "store ?w" "''x''" "''Playing''" ?w]
  note scenario = t [THEN conjunct2, THEN conjunct2, THEN conjunct2, THEN conjunct2]
  note others = t [THEN conjunct2, THEN conjunct2, THEN conjunct1]
  have c1: "userActivities (store (deliver (Activity_updated ''x'' ''Playing'')
                           (deliver (Activities [(''x'', ''Idle''), (''y'', ''Idle'')]) ?w)))
     = [''x'' \<mapsto> ''Playing'', ''y'' \<mapsto> ''Idle'']"
    by (rule scenario [THEN mp, OF conjI [OF h1 h2]])
  have "userActivities (handler (Activity_updated ''x'' ''Playing'') (store ?w)) ''y'' =
          userActivities (store ?w) ''y''"
    by (rule others [THEN spec, of "''y''", THEN mp, OF h3])
  with before
  have c2: "userActivities (handler (Activity_updated ''x'' ''Playing'') (store ?w)) ''y'' = None"
    by (simp only:)
  show ?thesis
    by (rule conjI [OF h1 conjI [OF h2 conjI [OF c1 conjI [OF h3 c2]]]])
qed

subsection \<open>Connecting\<close>

text \<open>
  Claim C2. On a store whose \<open>isConnected\<close> is true, \<open>initSocket\<close> changes nothing: no call
  reaches the transport (no \<open>connect\<close>, no \<open>emit\<close>, no \<open>on\<close>) and the store stays as it
  is. Hence a second \<open>initSocket\<close> right after a first changes nothing either, and on a store
  that was not connected the two calls together add to the transport one \<open>auth\<close>
  assignment, one \<open>connect\<close>, one \<open>user_connected\<close> emission with the first caller's
  identifier and one \<open>on\<close> for each of the seven events, and set \<open>isConnected\<close>: the
  number of \<open>user_connected\<close> emissions and the number of listeners attached for each of
  the seven events both grow by exactly one.
\<close>

theorem initSocket_idempotent:
  "(isConnected (store w) \<longrightarrow> initSocket userId w = w) \<and>
   initSocket userId' (initSocket userId w) = initSocket userId w \<and>
   (\<not> isConnected (store w) \<longrightarrow>
      socket_calls (initSocket userId' (initSocket userId w)) =
        socket_calls w @
        [Set_auth userId, Connect, Emit ''user_connected'' (Text userId),
         On ''users_online'', On ''activities'', On ''user_connected'',
         On ''user_disconnected'', On ''receive_message'', On ''message_sent'',
         On ''activity_updated''] \<and>
      store (initSocket userId' (initSocket userId w)) = (store w)\<lparr>isConnected := True\<rparr> \<and>
      emissions (socket_calls (initSocket userId' (initSocket userId w))) ''user_connected'' =
        emissions (socket_calls w) ''user_connected'' + 1 \<and>
      (\<forall>name \<in> {''users_online'', ''activities'', ''user_connected'', ''user_disconnected'',
                 ''receive_message'', ''message_sent'', ''activity_updated''}.
         registered (socket_calls (initSocket userId' (initSocket userId w))) name =
           registered (socket_calls w) name + 1))"
proof -
  have again: "initSocket userId' (initSocket userId w) = initSocket userId w"
    by (simp add: initSocket_def)
  have noop: "isConnected (store w) \<longrightarrow> initSocket userId w = w"
    by (simp add: initSocket_def)
  have first: "socket_calls (initSocket userId w) =
        socket_calls w @
        [Set_auth userId, Connect, Emit ''user_connected'' (Text userId),
         On ''users_online'', On ''activities'', On ''user_connected'',
         On ''user_disconnected'', On ''receive_message'', On ''message_sent'',
         On ''activity_updated'']"
    and st: "store (initSocket userId w) = (store w)\<lparr>isConnected := True\<rparr>"
    if "\<not> isConnected (store w)"
    using that by (simp_all add: initSocket_def listeners_def)
  have em: "emissions (socket_calls (initSocket userId w)) ''user_connected'' =
        emissions (socket_calls w) ''user_connected'' + 1"
    if "\<not> isConnected (store w)"
    unfolding first [OF that] by (simp add: emissions_def)
  have reg: "registered (socket_calls (initSocket userId w)) name =
           registered (socket_calls w) name + 1"
    if "\<not> isConnected (store w)"
      and "name \<in> {''users_online'', ''activities'', ''user_connected'', ''user_disconnected'',
                 ''receive_message'', ''message_sent'', ''activity_updated''}"
    for name
    using that(2) unfolding first [OF that(1)] by (auto simp: registered_def)
  show ?thesis
    unfolding again using noop first st em reg by blast
qed

theorem initSocket_idempotent_witness:
  "isConnected (store (initSocket ''u'' (initial :: (nat, nat) world))) \<and>
   initSocket ''v'' (initSocket ''u'' (initial :: (nat, nat) world)) = initSocket ''u'' initial \<and>
   \<not> isConnected (store (initial :: (nat, nat) world)) \<and>
   socket_calls (initSocket ''v'' (initSocket ''u'' (initial :: (nat, nat) world))) =
     [Set_auth ''u'', Connect, Emit ''user_connected'' (Text ''u''),
      On ''users_online'', On ''activities'', On ''user_connected'',
      On ''user_disconnected'', On ''receive_message'', On ''message_sent'',
      On ''activity_updated''] \<and>
   emissions (socket_calls (initSocket ''v'' (initSocket ''u'' (initial :: (nat, nat) world))))
     ''user_connected'' = 1 \<and>
   registered (socket_calls (initSocket ''v'' (initSocket ''u'' (initial :: (nat, nat) world))))
     ''message_sent'' = 1"
proof -
  let ?w0 = "initial :: (nat, nat) world"
  have c: "isConnected (store (initSocket ''u'' ?w0))"
    by (simp add: initSocket_def initial_def)
  have d: "\<not> isConnected (store ?w0)"
    by (simp add: initial_def)
  have e: "socket_calls ?w0 = []"
    by (simp add: initial_def)
  have m: "''message_sent'' \<in> {''users_online'', ''activities'', ''user_connected'',
             ''user_disconnected'', ''receive_message'', ''message_sent'', ''activity_updated''}"
    by simp
  from c initSocket_idempotent [of "initSocket ''u'' ?w0" "''v''" "''v''"]
  have z: "initSocket ''v'' (initSocket ''u'' ?w0) = initSocket ''u'' ?w0"
    by blast
  note t = initSocket_idempotent [of ?w0 "''u''" "''v''",
      THEN conjunct2, THEN conjunct2, THEN mp, OF d]
  from t have "socket_calls (initSocket ''v'' (initSocket ''u'' ?w0)) =
     socket_calls ?w0 @
     [Set_auth ''u'', Connect, Emit ''user_connected'' (Text ''u''),
      On ''users_online'', On ''activities'', On ''user_connected'',
      On ''user_disconnected'', On ''receive_message'', On ''message_sent'',
      On ''activity_updated'']"
    by (rule conjunct1)
  with e
  have y: "socket_calls (initSocket ''v'' (initSocket ''u'' ?w0)) =
     [Set_auth ''u'', Connect, Emit ''user_connected'' (Text ''u''),
      On ''users_online'', On ''activities'', On ''user_connected'',
      On ''user_disconnected'', On ''receive_message'', On ''message_sent'',
      On ''activity_updated'']"
    by simp
  from t have "emissions (socket_calls (initSocket ''v'' (initSocket ''u'' ?w0)))
       ''user_connected'' = emissions (socket_calls ?w0) ''user_connected'' + 1"
    by (rule conjunct2 [THEN conjunct2, THEN conjunct1])
  then have em: "emissions (socket_calls (initSocket ''v'' (initSocket ''u'' ?w0)))
       ''user_connected'' = 1"
    by (simp add: e emissions_def)
  from t have "\<forall>name \<in> {''users_online'', ''activities'', ''user_connected'',
                 ''user_disconnected'', ''receive_message'', ''message_sent'',
                 ''activity_updated''}.
         registered (socket_calls (initSocket ''v'' (initSocket ''u'' ?w0))) name =
           registered (socket_calls ?w0) name + 1"
    by (rule conjunct2 [THEN conjunct2, THEN conjunct2])
  from bspec [OF this m]
  have rg: "registered (socket_calls (initSocket ''v'' (initSocket ''u'' ?w0)))
       ''message_sent'' = 1"
    by (simp add: e registered_def)
  show ?thesis
    by (rule conjI [OF c conjI [OF z conjI [OF d conjI [OF y conjI [OF em rg]]]]])
qed

subsection \<open>Sending\<close>

text \<open>
  Claim C8. Without a transport in the store, \<open>sendMessage\<close> changes nothing and completes
  without throwing. With one, it adds to the transport exactly one emission of
  \<open>send_message\<close> carrying \<open>receiverId\<close>, \<open>senderId\<close> and \<open>content\<close>, and completes. In both
  cases the store, and \<open>messages\<close> with it, is as it was.
\<close>

theorem sendMessage_frame:
  "(socket (store w) = None \<longrightarrow> sendMessage receiverId senderId content w = (w, Completed)) \<and>
   (socket (store w) \<noteq> None \<longrightarrow>
      sendMessage receiverId senderId content w =
        (w\<lparr>socket_calls :=
             socket_calls w @
             [Emit ''send_message''
                (Object [(''receiverId'', receiverId), (''senderId'', senderId),
                         (''content'', content)])]\<rparr>,
         Completed)) \<and>
   store (fst (sendMessage receiverId senderId content w)) = store w \<and>
   snd (sendMessage receiverId senderId content w) = Completed"
  by (cases "socket (store w)") (auto simp: sendMessage_def split: socket_ref.splits)

theorem sendMessage_frame_witness:
  "socket (store ((initial :: (nat, nat) world)\<lparr>store := (store initial)\<lparr>socket := None\<rparr>\<rparr>)) = None \<and>
   sendMessage ''r'' ''s'' ''hi'' ((initial :: (nat, nat) world)\<lparr>store := (store initial)\<lparr>socket := None\<rparr>\<rparr>)
     = (initial\<lparr>store := (store initial)\<lparr>socket := None\<rparr>\<rparr>, Completed) \<and>
   socket (store (initial :: (nat, nat) world)) \<noteq> None \<and>
   sendMessage ''r'' ''s'' ''hi'' (initial :: (nat, nat) world) =
     (initial\<lparr>socket_calls :=
         [Emit ''send_message''
            (Object [(''receiverId'', ''r''), (''senderId'', ''s''), (''content'', ''hi'')])]\<rparr>,
      Completed)"
proof -
  let ?w0 = "(initial :: (nat, nat) world)\<lparr>store := (store initial)\<lparr>socket := None\<rparr>\<rparr>"
  have a: "socket (store ?w0) = None" by simp
  have b: "socket (store (initial :: (nat, nat) world)) \<noteq> None" by (simp add: initial_def)
  have c: "socket_calls (initial :: (nat, nat) world) = []" by (simp add: initial_def)
  from a b c
    sendMessage_frame [of ?w0 "''r''" "''s''" "''hi''"]
    sendMessage_frame [of "initial :: (nat, nat) world" "''r''" "''s''" "''hi''"]
  show ?thesis by simp
qed

subsection \<open>Fetching\<close>

text \<open>
  What \<open>fetchUsers\<close> does on each outcome of its request. It first sets \<open>isLoading\<close> and
  issues \<open>GET /users\<close>, leaving \<open>users\<close> as it is. When the request has settled,
  whatever the outcome and whatever else happened to the store in the meantime,
  \<open>isLoading\<close> is false. On a response \<open>users\<close> is the received list. On a failure
  \<open>users\<close> is what it was just before, and when the failure carries a response of the
  server with a message, \<open>error\<close> is that message and the call completes.
\<close>

lemma fetchUsers_outcomes:
  "isLoading (fst (fetchUsers_begin s)) \<and>
   snd (fetchUsers_begin s) = ''/users'' \<and>
   users (fst (fetchUsers_begin s)) = users s \<and>
   \<not> isLoading (fst (fetchUsers meanwhile r s)) \<and>
   (\<forall>data. r = Response data \<longrightarrow> users (fst (fetchUsers meanwhile r s)) = data) \<and>
   ((\<forall>data. r \<noteq> Response data) \<longrightarrow>
      users (fst (fetchUsers meanwhile r s)) = users (meanwhile (fst (fetchUsers_begin s)))) \<and>
   (\<forall>message. r = Error_response (Some message) \<longrightarrow>
      error (fst (fetchUsers meanwhile r s)) = Some message \<and>
      snd (fetchUsers meanwhile r s) = Completed)"
  by (cases r) (simp_all add: fetchUsers_def fetchUsers_begin_def fetchUsers_resume_def)

text \<open>
  Claim C3. The claim holds on a response and on a failure that carries a response of the
  server, as shown above, and \<open>isLoading\<close> ends false on every outcome. It fails on a
  failure without a response (the network is down, the request timed out): the \<open>catch\<close>
  block of line 51 reads \<open>error.response.data.message\<close>, which throws a TypeError, so
  no message is recorded. \<open>users\<close> is untouched and \<open>finally\<close> clears \<open>isLoading\<close>, but
  \<open>error\<close> keeps the null that line 46 gave it (unless another callback set it in the
  meantime) and the promise of \<open>fetchUsers\<close> is rejected with the TypeError.
\<close>

theorem fetchUsers_no_response_throws:
  "fetchUsers meanwhile No_response s =
     ((meanwhile (s\<lparr>isLoading := True, error := None\<rparr>))\<lparr>isLoading := False\<rparr>,
      Threw TypeError) \<and>
   error (fst (fetchUsers meanwhile No_response s)) =
     error (meanwhile (fst (fetchUsers_begin s))) \<and>
   error (fst (fetchUsers (\<lambda>s. s) No_response s)) = None \<and>
   snd (fetchUsers meanwhile No_response s) = Threw TypeError"
  by (simp add: fetchUsers_def fetchUsers_begin_def fetchUsers_resume_def)

text \<open>
  Claim C10. \<open>fetchUsers\<close> and \<open>fetchMessages\<close> both put \<open>error\<close> back to null in the step
  that issues their request, so the store holds no error at that moment whatever \<open>error\<close>
  was before. With nothing else touching the store until the request settles, the
  \<open>error\<close> a fetch leaves depends on its outcome alone: the message of the server's error
  response, and null on a response and on a failure without one.
\<close>

theorem fetch_clears_error:
  "error (fst (fetchUsers_begin s)) = None \<and>
   snd (fetchUsers_begin s) = ''/users'' \<and>
   error (fst (fetchMessages_begin userId s)) = None \<and>
   snd (fetchMessages_begin userId s) = ''/users/messages/'' @ userId \<and>
   error (fst (fetchUsers (\<lambda>s. s) r s)) =
     (case r of Error_response message \<Rightarrow> message | _ \<Rightarrow> None) \<and>
   error (fst (fetchMessages userId (\<lambda>s. s) r' s)) =
     (case r' of Error_response message \<Rightarrow> message | _ \<Rightarrow> None)"
  by (cases r; cases r')
    (simp_all add: fetchUsers_def fetchUsers_begin_def fetchUsers_resume_def
      fetchMessages_def fetchMessages_begin_def fetchMessages_resume_def)

end
